theory Spec2Isabelle
  imports Main "HOL-Library.AList"
begin

section \<open>Paths\<close>

text \<open>
  A path is kept as the list of its components, with a mark for a leading slash.
  \<^verbatim>\<open>os.path.join(p, name)\<close> with a plain file name appends one component and
  \<^verbatim>\<open>os.path.basename\<close> reads the last one.
\<close>

datatype path = Abs "string list" | Rel "string list"

fun components :: "path \<Rightarrow> string list" where
  "components (Abs cs) = cs"
| "components (Rel cs) = cs"

fun os_path_join :: "path \<Rightarrow> string \<Rightarrow> path" where
  "os_path_join (Abs cs) name = Abs (cs @ [name])"
| "os_path_join (Rel cs) name = Rel (cs @ [name])"

definition os_path_basename :: "path \<Rightarrow> string" where
  "os_path_basename p = (if components p = [] then [] else last (components p))"

fun join_sep :: "string list \<Rightarrow> string" where
  "join_sep [] = []"
| "join_sep [c] = c"
| "join_sep (c # d # cs) = c @ ''/'' @ join_sep (d # cs)"

fun path_str :: "path \<Rightarrow> string" where
  "path_str (Abs cs) = ''/'' @ join_sep cs"
| "path_str (Rel cs) = join_sep cs"

text \<open>
  \<^verbatim>\<open>posixpath.normpath\<close> on the components of an absolute path: empty and
  \<^verbatim>\<open>.\<close> components are skipped, \<^verbatim>\<open>..\<close> removes the component before
  it and is dropped at the root.
\<close>

fun normpath :: "string list \<Rightarrow> string list \<Rightarrow> string list" where
  "normpath new_comps [] = new_comps"
| "normpath new_comps (c # comps) =
     (if c = [] \<or> c = ''.'' then normpath new_comps comps
      else if c \<noteq> ''..'' then normpath (new_comps @ [c]) comps
      else if new_comps \<noteq> [] then normpath (butlast new_comps) comps
      else normpath new_comps comps)"

fun os_path_abspath :: "string list \<Rightarrow> path \<Rightarrow> string list" where
  "os_path_abspath cwd (Abs cs) = normpath [] cs"
| "os_path_abspath cwd (Rel cs) = normpath [] (cwd @ cs)"

fun commonprefix :: "string list \<Rightarrow> string list \<Rightarrow> string list" where
  "commonprefix (x # xs) (y # ys) = (if x = y then x # commonprefix xs ys else [])"
| "commonprefix _ _ = []"

text \<open>
  \<^verbatim>\<open>posixpath.relpath(path, start)\<close>: both arguments are made absolute against the
  working directory, one \<^verbatim>\<open>..\<close> is written for every component of \<open>start\<close>
  after the common prefix, then the rest of \<open>path\<close>; the result is \<^verbatim>\<open>.\<close> when
  nothing is left. The result is built from components alone, so it is a relative path.
\<close>

definition os_path_relpath :: "string list \<Rightarrow> path \<Rightarrow> path \<Rightarrow> path" where
  "os_path_relpath cwd p start =
     (let start_list = os_path_abspath cwd start;
          path_list = os_path_abspath cwd p;
          i = length (commonprefix start_list path_list);
          rel_list = replicate (length start_list - i) ''..'' @ drop i path_list
      in if rel_list = [] then Rel [''.''] else Rel rel_list)"

section \<open>The source trees\<close>

text \<open>
  What the script can observe of a source tree. A regular file has its bytes and its
  modification time (\<^verbatim>\<open>filecmp.cmp\<close> looks at both), a directory has its
  entries in the order the operating system lists them, and a symbolic link is kept
  with what the filesystem answers about it: the absolute path that
  \<^verbatim>\<open>os.path.realpath\<close> returns for it, and the entry that \<^verbatim>\<open>stat\<close> reaches
  through it (\<open>None\<close> for a dangling link).
\<close>

datatype node =
    File string nat
  | Dir "(string \<times> node) list"
  | Symlink path "node option"

text \<open>Following links, as \<^verbatim>\<open>os.stat\<close> does; \<open>None\<close> when nothing is reached.\<close>

fun follow :: "node \<Rightarrow> node option" where
  "follow (File b t) = Some (File b t)"
| "follow (Dir es) = Some (Dir es)"
| "follow (Symlink p None) = None"
| "follow (Symlink p (Some n)) = follow n"

text \<open>
  The filesystem object found at a path is a \<open>node option\<close>, \<open>None\<close> when the path
  names nothing.
\<close>

fun os_stat :: "node option \<Rightarrow> node option" where
  "os_stat None = None"
| "os_stat (Some n) = follow n"

fun os_path_islink :: "node option \<Rightarrow> bool" where
  "os_path_islink (Some (Symlink p t)) = True"
| "os_path_islink _ = False"

definition os_path_exists :: "node option \<Rightarrow> bool" where
  "os_path_exists x = (os_stat x \<noteq> None)"

definition os_path_isdir :: "node option \<Rightarrow> bool" where
  "os_path_isdir x = (case os_stat x of Some (Dir es) \<Rightarrow> True | _ \<Rightarrow> False)"

definition os_listdir :: "node option \<Rightarrow> (string \<times> node) list" where
  "os_listdir x = (case os_stat x of Some (Dir es) \<Rightarrow> es | _ \<Rightarrow> [])"

text \<open>The object at \<^verbatim>\<open>os.path.join(d, name)\<close>, for the object \<open>d\<close> at a path.\<close>

definition entry_at :: "node option \<Rightarrow> string \<Rightarrow> node option" where
  "entry_at d name = map_of (os_listdir d) name"

text \<open>
  \<^verbatim>\<open>glob.glob(d + "/*")\<close>: the entries of the directory at \<open>d\<close> (none when \<open>d\<close> is
  not a directory), without those whose name begins with a dot, which the pattern
  \<^verbatim>\<open>*\<close> does not match.
\<close>

definition ishidden :: "string \<Rightarrow> bool" where
  "ishidden name = (case name of [] \<Rightarrow> False | c # cs \<Rightarrow> c = CHR ''.'')"

definition glob_star :: "node option \<Rightarrow> (string \<times> node) list" where
  "glob_star d = filter (\<lambda>e. \<not> ishidden (fst e)) (os_listdir d)"

text \<open>
  \<^verbatim>\<open>filecmp.cmp(f1, f2)\<close> with its default \<^verbatim>\<open>shallow=True\<close>: false unless both
  are regular files, true when size and modification time agree, false when the sizes
  differ, and a comparison of the bytes otherwise. It is only called on paths that exist.
\<close>

definition filecmp_cmp :: "node option \<Rightarrow> node option \<Rightarrow> bool" where
  "filecmp_cmp f1 f2 =
     (case (os_stat f1, os_stat f2) of
        (Some (File b1 t1), Some (File b2 t2)) \<Rightarrow>
          (if length b1 = length b2 \<and> t1 = t2 then True
           else if length b1 \<noteq> length b2 then False
           else b1 = b2)
      | _ \<Rightarrow> False)"

section \<open>The destination tree\<close>

text \<open>
  The destination directory is its list of entries; a destination link holds the
  target text it was created with.
\<close>

datatype dnode =
    DFile string
  | DDir "(string \<times> dnode) list"
  | DSymlink path

datatype error =
    UnboundLocalError
  | IsADirectoryError
  | NotADirectoryError
  | FileExistsError
  | FileNotFoundError
  | ShutilError
  | CalledProcessError "string list"
  | OutsideModel

text \<open>
  Writing a regular file replaces a regular file of that name. Writing onto an existing
  directory or through an existing link is not modelled (\<open>OutsideModel\<close>): the merge
  starts from an empty destination and no directory lists a name twice, so it never
  does either (\<open>merge_stays_inside_model\<close> below).
\<close>

definition write_file :: "string \<Rightarrow> string \<Rightarrow> (string \<times> dnode) list \<Rightarrow> error + (string \<times> dnode) list" where
  "write_file name b d =
     (case map_of d name of
        None \<Rightarrow> Inr (AList.update name (DFile b) d)
      | Some (DFile old) \<Rightarrow> Inr (AList.update name (DFile b) d)
      | Some (DDir cs) \<Rightarrow> Inl OutsideModel
      | Some (DSymlink t) \<Rightarrow> Inl OutsideModel)"

definition shutil_copy :: "node option \<Rightarrow> string \<Rightarrow> (string \<times> dnode) list \<Rightarrow> error + (string \<times> dnode) list" where
  "shutil_copy src name d =
     (case os_stat src of
        Some (File b t) \<Rightarrow> write_file name b d
      | Some (Dir es) \<Rightarrow> Inl IsADirectoryError
      | _ \<Rightarrow> Inl FileNotFoundError)"

definition os_mkdir :: "string \<Rightarrow> (string \<times> dnode) list \<Rightarrow> error + (string \<times> dnode) list" where
  "os_mkdir name d =
     (if map_of d name \<noteq> None then Inl FileExistsError
      else Inr (AList.update name (DDir []) d))"

definition os_symlink :: "path \<Rightarrow> string \<Rightarrow> (string \<times> dnode) list \<Rightarrow> error + (string \<times> dnode) list" where
  "os_symlink target name d =
     (if map_of d name \<noteq> None then Inl FileExistsError
      else Inr (AList.update name (DSymlink target) d))"

text \<open>
  \<^verbatim>\<open>shutil.copytree\<close> with its defaults follows links: a linked file is copied as
  a file, a linked directory as a directory, and a dangling link is an error. Errors
  inside the tree are collected and raised together at the end (\<open>None\<close> here).
\<close>

fun copy_node :: "node \<Rightarrow> dnode option"
  and copy_entries :: "(string \<times> node) list \<Rightarrow> (string \<times> dnode) list option" where
  "copy_node (File b t) = Some (DFile b)"
| "copy_node (Dir es) = (case copy_entries es of None \<Rightarrow> None | Some cs \<Rightarrow> Some (DDir cs))"
| "copy_node (Symlink p None) = None"
| "copy_node (Symlink p (Some n)) = copy_node n"
| "copy_entries [] = Some []"
| "copy_entries (e # es) =
     (case copy_node (snd e) of
        None \<Rightarrow> None
      | Some v \<Rightarrow> (case copy_entries es of None \<Rightarrow> None | Some vs \<Rightarrow> Some ((fst e, v) # vs)))"

definition shutil_copytree :: "node option \<Rightarrow> string \<Rightarrow> (string \<times> dnode) list \<Rightarrow> error + (string \<times> dnode) list" where
  "shutil_copytree src name d =
     (case os_stat src of
        Some (Dir es) \<Rightarrow>
          (if map_of d name \<noteq> None then Inl FileExistsError
           else (case copy_entries es of
                   None \<Rightarrow> Inl ShutilError
                 | Some cs \<Rightarrow> Inr (AList.update name (DDir cs) d)))
      | Some (File b t) \<Rightarrow> Inl NotADirectoryError
      | _ \<Rightarrow> Inl FileNotFoundError)"

section \<open>The merge\<close>

text \<open>
  The surroundings of a run: the working directory, against which relative paths are
  made absolute, and the outcome of the external \<^verbatim>\<open>lipo\<close> command on two inputs:
  \<open>Some b\<close> when it exits with status 0 and has written the bytes \<open>b\<close> to its
  output, \<open>None\<close> when it exits with any other status.
\<close>

record env =
  cwd :: "string list"
  lipo_tool :: "node option \<Rightarrow> node option \<Rightarrow> string option"

text \<open>The entries created in the destination directory, and the lines printed.\<close>

record merge_state =
  dst_tree :: "(string \<times> dnode) list"
  printed :: "string list"

definition lipo_warning :: "path \<Rightarrow> path \<Rightarrow> string" where
  "lipo_warning path0 path1 =
     ''WARNING: '' @ path_str path0 @ '' and '' @ path_str path1
       @ '' are different but can not be lipo'd, keeping '' @ path_str path0"

definition lipo :: "env \<Rightarrow> path \<Rightarrow> node option \<Rightarrow> path \<Rightarrow> node option \<Rightarrow> string \<Rightarrow> merge_state \<Rightarrow> error + merge_state" where
  "lipo E path0 f0 path1 f1 dst st =
     (case lipo_tool E f0 f1 of
        Some b \<Rightarrow> Inr (st\<lparr>dst_tree := AList.update dst (DFile b) (dst_tree st)\<rparr>)
      | None \<Rightarrow>
          (case shutil_copy f0 dst (dst_tree st) of
             Inl err \<Rightarrow> Inl err
           | Inr d \<Rightarrow> Inr \<lparr>dst_tree = d, printed = printed st @ [lipo_warning path0 path1]\<rparr>))"

text \<open>
  The second loop, over the entries of \<open>src1\<close>. The variable \<open>newpath0\<close> is the one
  the first loop leaves behind, unbound (\<open>None\<close>) when that loop had nothing to run
  over; the loop reads its base name and assigns it again on every round.
\<close>

fun merge_right :: "node option \<Rightarrow> path \<Rightarrow> (string \<times> node) list \<Rightarrow> path option \<Rightarrow> (string \<times> dnode) list \<Rightarrow> error + (string \<times> dnode) list" where
  "merge_right n0 src0 [] var d = Inr d"
| "merge_right n0 src0 (e1 # rest) None d = Inl UnboundLocalError"
| "merge_right n0 src0 (e1 # rest) (Some newpath0) d =
     (let filename = os_path_basename newpath0;
          newpath0' = os_path_join src0 filename;
          new_dst_path = filename
      in if \<not> os_path_exists (entry_at n0 filename) \<and> \<not> os_path_islink (Some (snd e1)) then
           (case shutil_copytree (Some (snd e1)) new_dst_path d of
              Inl err \<Rightarrow> Inl err
            | Inr d' \<Rightarrow> merge_right n0 src0 rest (Some newpath0') d')
         else merge_right n0 src0 rest (Some newpath0') d)"

text \<open>The value of the loop variable \<open>newpath0\<close> after the first loop.\<close>

definition last_newpath0 :: "path \<Rightarrow> (string \<times> node) list \<Rightarrow> path option" where
  "last_newpath0 src0 es = (if es = [] then None else Some (os_path_join src0 (fst (last es))))"

text \<open>The two passes that create the links.\<close>

fun fix_left :: "env \<Rightarrow> path \<Rightarrow> (string \<times> node) list \<Rightarrow> (string \<times> dnode) list \<Rightarrow> error + (string \<times> dnode) list" where
  "fix_left E src0 [] d = Inr d"
| "fix_left E src0 ((filename, Symlink realpath t) # rest) d =
     (let relative_path = os_path_relpath (cwd E) realpath src0 in
      case os_symlink relative_path filename d of
        Inl err \<Rightarrow> Inl err
      | Inr d' \<Rightarrow> fix_left E src0 rest d')"
| "fix_left E src0 (e # rest) d = fix_left E src0 rest d"

fun fix_right :: "env \<Rightarrow> node option \<Rightarrow> path \<Rightarrow> (string \<times> node) list \<Rightarrow> (string \<times> dnode) list \<Rightarrow> error + (string \<times> dnode) list" where
  "fix_right E n0 src1 [] d = Inr d"
| "fix_right E n0 src1 ((filename, Symlink realpath t) # rest) d =
     (if \<not> os_path_exists (entry_at n0 filename) then
        (let relative_path = os_path_relpath (cwd E) realpath src1 in
         case os_symlink relative_path filename d of
           Inl err \<Rightarrow> Inl err
         | Inr d' \<Rightarrow> fix_right E n0 src1 rest d')
      else fix_right E n0 src1 rest d)"
| "fix_right E n0 src1 (e # rest) d = fix_right E n0 src1 rest d"

text \<open>The size of a list of entries, for the termination of the merge.\<close>

definition weight :: "(string \<times> node) list \<Rightarrow> nat" where
  "weight es = sum_list (map (\<lambda>e. size (snd e) + 2) es)"

text \<open>
  \<open>recursiveMergeBinaries E src0 n0 src1 n1\<close>: \<open>src0\<close> and \<open>src1\<close> are the two source
  paths, \<open>n0\<close> and \<open>n1\<close> what the filesystem holds there; the result is what the call
  creates in the (empty) directory \<open>dst\<close> and what it prints, or the exception that
  ends it. \<open>merge_left\<close> is the first loop, over the entries of \<open>src0\<close>; an entry
  \<open>new_dst_path\<close> of the destination directory is named by its file name.
\<close>

function recursiveMergeBinaries :: "env \<Rightarrow> path \<Rightarrow> node option \<Rightarrow> path \<Rightarrow> node option \<Rightarrow> error + merge_state"
  and merge_left :: "env \<Rightarrow> path \<Rightarrow> path \<Rightarrow> node option \<Rightarrow> (string \<times> node) list \<Rightarrow> merge_state \<Rightarrow> error + merge_state" where
  "recursiveMergeBinaries E src0 n0 src1 n1 =
     (case merge_left E src0 src1 n1 (glob_star n0) \<lparr>dst_tree = [], printed = []\<rparr> of
        Inl err \<Rightarrow> Inl err
      | Inr st \<Rightarrow>
          (case merge_right n0 src0 (glob_star n1) (last_newpath0 src0 (glob_star n0)) (dst_tree st) of
             Inl err \<Rightarrow> Inl err
           | Inr d2 \<Rightarrow>
               (case fix_left E src0 (glob_star n0) d2 of
                  Inl err \<Rightarrow> Inl err
                | Inr d3 \<Rightarrow>
                    (case fix_right E n0 src1 (glob_star n1) d3 of
                       Inl err \<Rightarrow> Inl err
                     | Inr d4 \<Rightarrow> Inr (st\<lparr>dst_tree := d4\<rparr>)))))"
| "merge_left E src0 src1 n1 [] st = Inr st"
| "merge_left E src0 src1 n1 (e0 # rest) st =
     (let filename = fst e0;
          newpath0 = os_path_join src0 filename;
          newpath1 = os_path_join src1 filename;
          new_dst_path = filename
      in if \<not> os_path_islink (Some (snd e0)) then
           if os_path_exists (entry_at n1 filename) then
             if os_path_isdir (entry_at n1 filename) then
               (case os_mkdir new_dst_path (dst_tree st) of
                  Inl err \<Rightarrow> Inl err
                | Inr d \<Rightarrow>
                    (case recursiveMergeBinaries E newpath0 (Some (snd e0)) newpath1 (entry_at n1 filename) of
                       Inl err \<Rightarrow> Inl err
                     | Inr r \<Rightarrow>
                         merge_left E src0 src1 n1 rest
                           \<lparr>dst_tree = AList.update new_dst_path (DDir (dst_tree r)) d,
                            printed = printed st @ printed r\<rparr>))
             else if filecmp_cmp (Some (snd e0)) (entry_at n1 filename) then
               (case shutil_copy (Some (snd e0)) new_dst_path (dst_tree st) of
                  Inl err \<Rightarrow> Inl err
                | Inr d \<Rightarrow> merge_left E src0 src1 n1 rest (st\<lparr>dst_tree := d\<rparr>))
             else
               (case lipo E newpath0 (Some (snd e0)) newpath1 (entry_at n1 filename) new_dst_path st of
                  Inl err \<Rightarrow> Inl err
                | Inr st' \<Rightarrow> merge_left E src0 src1 n1 rest st')
           else
             (case shutil_copy (Some (snd e0)) new_dst_path (dst_tree st) of
                Inl err \<Rightarrow> Inl err
              | Inr d \<Rightarrow> merge_left E src0 src1 n1 rest (st\<lparr>dst_tree := d\<rparr>))
         else merge_left E src0 src1 n1 rest st)"
  by pat_completeness auto

lemma follow_size: "follow n = Some m \<Longrightarrow> size m \<le> size n"
  by (induction n rule: follow.induct) auto

lemma weight_le_size_list: "weight es \<le> size_list (size_prod (\<lambda>x. 0) size) es"
  by (induction es) (auto simp: weight_def)

lemma weight_listdir: "weight (os_listdir d) \<le> size_option size d"
proof (cases d)
  case None
  then show ?thesis by (simp add: os_listdir_def weight_def)
next
  case (Some n)
  show ?thesis
  proof (cases "follow n")
    case None
    with Some show ?thesis by (simp add: os_listdir_def weight_def)
  next
    case (Some m)
    note fm = this
    show ?thesis
    proof (cases m)
      case (Dir es)
      have "weight es \<le> size m" using Dir weight_le_size_list [of es] by simp
      also have "\<dots> \<le> size n" using fm by (rule follow_size)
      finally show ?thesis using \<open>d = Some n\<close> fm Dir by (simp add: os_listdir_def)
    qed (use \<open>d = Some n\<close> fm in \<open>simp_all add: os_listdir_def weight_def\<close>)
  qed
qed

lemma weight_filter: "weight (filter P es) \<le> weight es"
  by (induction es) (auto simp: weight_def)

lemma weight_glob_star: "weight (glob_star d) \<le> size_option size d"
  unfolding glob_star_def using weight_filter weight_listdir le_trans by blast

termination recursiveMergeBinaries
proof (relation "measure (\<lambda>x. case x of
          Inl (E, src0, n0, src1, n1) \<Rightarrow> 2 * size_option size n0 + 1
        | Inr (E, src0, src1, n1, es, st) \<Rightarrow> 2 * weight es)", goal_cases)
  case 1
  show ?case by simp
next
  case (2 E src0 n0 src1 n1)
  show ?case using weight_glob_star [of n0] by simp
qed (simp_all add: weight_def)

section \<open>One round of the first loop\<close>

text \<open>
  The body of the first loop for one entry of \<open>src0\<close>, as a function of its own:
  \<open>merge_left\<close> runs it on every entry in turn (\<open>merge_left_Cons\<close>).
\<close>

definition merge_entry :: "env \<Rightarrow> path \<Rightarrow> path \<Rightarrow> node option \<Rightarrow> string \<times> node \<Rightarrow> merge_state \<Rightarrow> error + merge_state" where
  "merge_entry E src0 src1 n1 e0 st =
     (if \<not> os_path_islink (Some (snd e0)) then
        if os_path_exists (entry_at n1 (fst e0)) then
          if os_path_isdir (entry_at n1 (fst e0)) then
            (case os_mkdir (fst e0) (dst_tree st) of
               Inl err \<Rightarrow> Inl err
             | Inr d \<Rightarrow>
                 (case recursiveMergeBinaries E (os_path_join src0 (fst e0)) (Some (snd e0))
                         (os_path_join src1 (fst e0)) (entry_at n1 (fst e0)) of
                    Inl err \<Rightarrow> Inl err
                  | Inr r \<Rightarrow>
                      Inr \<lparr>dst_tree = AList.update (fst e0) (DDir (dst_tree r)) d,
                           printed = printed st @ printed r\<rparr>))
          else if filecmp_cmp (Some (snd e0)) (entry_at n1 (fst e0)) then
            (case shutil_copy (Some (snd e0)) (fst e0) (dst_tree st) of
               Inl err \<Rightarrow> Inl err
             | Inr d \<Rightarrow> Inr (st\<lparr>dst_tree := d\<rparr>))
          else lipo E (os_path_join src0 (fst e0)) (Some (snd e0))
                 (os_path_join src1 (fst e0)) (entry_at n1 (fst e0)) (fst e0) st
        else
          (case shutil_copy (Some (snd e0)) (fst e0) (dst_tree st) of
             Inl err \<Rightarrow> Inl err
           | Inr d \<Rightarrow> Inr (st\<lparr>dst_tree := d\<rparr>))
      else Inr st)"

lemma merge_left_Cons:
  "merge_left E src0 src1 n1 (e0 # rest) st =
     (case merge_entry E src0 src1 n1 e0 st of
        Inl err \<Rightarrow> Inl err
      | Inr st' \<Rightarrow> merge_left E src0 src1 n1 rest st')"
  by (simp add: merge_entry_def Let_def split: sum.splits)

lemmas [simp del] = merge_left.simps(2) recursiveMergeBinaries.simps

lemma write_file_map:
  "write_file name b d = Inr d' \<Longrightarrow> map_of d' = (map_of d)(name \<mapsto> DFile b)"
  by (auto simp: write_file_def update_conv' split: option.splits dnode.splits)

lemma shutil_copy_map:
  "shutil_copy src name d = Inr d' \<Longrightarrow> \<exists>b t. os_stat src = Some (File b t) \<and> map_of d' = (map_of d)(name \<mapsto> DFile b)"
  by (auto simp: shutil_copy_def dest: write_file_map split: option.splits node.splits)

lemma os_mkdir_map:
  "os_mkdir name d = Inr d' \<Longrightarrow> map_of d name = None \<and> map_of d' = (map_of d)(name \<mapsto> DDir [])"
  by (auto simp: os_mkdir_def update_conv' split: if_splits)



lemma lipo_map:
  "lipo E path0 f0 path1 f1 name st = Inr st' \<Longrightarrow>
     \<exists>b. map_of (dst_tree st') = (map_of (dst_tree st))(name \<mapsto> DFile b)"
proof (cases "lipo_tool E f0 f1")
  case None
  assume a: "lipo E path0 f0 path1 f1 name st = Inr st'"
  with None obtain d where d: "shutil_copy f0 name (dst_tree st) = Inr d" and "dst_tree st' = d"
    by (auto simp: lipo_def split: sum.splits)
  with shutil_copy_map [OF d] show ?thesis by auto
next
  case (Some b)
  assume "lipo E path0 f0 path1 f1 name st = Inr st'"
  with Some show ?thesis by (auto simp: lipo_def update_conv')
qed

lemma merge_entry_other:
  assumes "merge_entry E src0 src1 n1 e0 st = Inr st'" and "x \<noteq> fst e0"
  shows "map_of (dst_tree st') x = map_of (dst_tree st) x"
  using assms
  by (auto simp: merge_entry_def update_conv' split: if_splits sum.splits
      dest!: shutil_copy_map os_mkdir_map lipo_map)














section \<open>Relative paths in the trees\<close>



fun names_distinct :: "node \<Rightarrow> bool" where
  "names_distinct (Dir es) = (distinct (map fst es) \<and> (\<forall>e \<in> set es. names_distinct (snd e)))"
| "names_distinct _ = True"



lemma glob_star_Dir: "glob_star (Some (Dir es)) = filter (\<lambda>e. \<not> ishidden (fst e)) es"
  by (simp add: glob_star_def os_listdir_def)


lemma distinct_glob_star: "distinct (map fst es) \<Longrightarrow> distinct (map fst (glob_star (Some (Dir es))))"
  by (simp add: glob_star_Dir distinct_map_filter)










section \<open>The merge stays inside the model\<close>

text \<open>
  From an empty destination and a left tree in which no directory lists a name twice,
  the merge never writes onto a directory or through a link: it never ends with
  \<open>OutsideModel\<close>.
\<close>

lemma write_file_inside: "map_of d name = None \<Longrightarrow> write_file name b d \<noteq> Inl OutsideModel"
  by (simp add: write_file_def)

lemma shutil_copy_inside: "map_of d name = None \<Longrightarrow> shutil_copy src name d \<noteq> Inl OutsideModel"
  by (auto simp: shutil_copy_def write_file_def split: option.splits node.splits)

lemma lipo_inside:
  "map_of (dst_tree st) name = None \<Longrightarrow> lipo E p0 f0 p1 f1 name st \<noteq> Inl OutsideModel"
  using shutil_copy_inside [of "dst_tree st" name f0]
  by (auto simp: lipo_def split: option.splits sum.splits)

lemma merge_right_inside: "merge_right n0 src0 es var d \<noteq> Inl OutsideModel"
proof (induction n0 src0 es var d rule: merge_right.induct)
  case (3 n0 src0 e1 rest newpath0 d)
  then show ?case
    by (auto simp: Let_def shutil_copytree_def split: sum.splits option.splits node.splits if_splits)
qed simp_all

lemma fix_left_inside: "fix_left E src0 es d \<noteq> Inl OutsideModel"
proof (induction E src0 es d rule: fix_left.induct)
  case (2 E src0 filename realpath t rest d)
  then show ?case by (auto simp: Let_def os_symlink_def split: sum.splits if_splits)
qed simp_all

lemma fix_right_inside: "fix_right E n0 src1 es d \<noteq> Inl OutsideModel"
proof (induction E n0 src1 es d rule: fix_right.induct)
  case (2 E n0 src1 filename realpath t rest d)
  then show ?case by (auto simp: Let_def os_symlink_def split: sum.splits if_splits)
qed simp_all

lemma merge_entry_inside:
  assumes "map_of (dst_tree st) (fst e0) = None"
    and "\<not> os_path_islink (Some (snd e0)) \<Longrightarrow>
           recursiveMergeBinaries E (os_path_join src0 (fst e0)) (Some (snd e0))
             (os_path_join src1 (fst e0)) (entry_at n1 (fst e0)) \<noteq> Inl OutsideModel"
  shows "merge_entry E src0 src1 n1 e0 st \<noteq> Inl OutsideModel"
  using assms shutil_copy_inside [OF assms(1), of "Some (snd e0)"]
    lipo_inside [OF assms(1), of E "os_path_join src0 (fst e0)" "Some (snd e0)"
      "os_path_join src1 (fst e0)" "entry_at n1 (fst e0)"]
  by (auto simp: merge_entry_def os_mkdir_def split: sum.splits if_splits)

lemma merge_left_inside:
  assumes "\<And>e s0 s1 m1. e \<in> set es \<Longrightarrow> \<not> os_path_islink (Some (snd e)) \<Longrightarrow>
             recursiveMergeBinaries E s0 (Some (snd e)) s1 m1 \<noteq> Inl OutsideModel"
    and "distinct (map fst es)"
    and "\<forall>e \<in> set es. map_of (dst_tree st) (fst e) = None"
  shows "merge_left E src0 src1 n1 es st \<noteq> Inl OutsideModel"
  using assms
proof (induction es arbitrary: st)
  case Nil
  then show ?case by simp
next
  case (Cons a rest)
  have here: "map_of (dst_tree st) (fst a) = None" using Cons.prems(3) by simp
  have ent: "merge_entry E src0 src1 n1 a st \<noteq> Inl OutsideModel"
    by (rule merge_entry_inside [OF here]) (rule Cons.prems(1), simp_all)
  show ?case
  proof (cases "merge_entry E src0 src1 n1 a st")
    case (Inl err)
    with ent show ?thesis by (simp add: merge_left_Cons)
  next
    case (Inr s1)
    have "\<forall>e \<in> set rest. map_of (dst_tree s1) (fst e) = None"
    proof
      fix e assume e: "e \<in> set rest"
      with Cons.prems(2) have "fst e \<noteq> fst a" by (metis distinct.simps(2) image_eqI list.simps(9) set_map)
      from merge_entry_other [OF Inr this] Cons.prems(3) e show "map_of (dst_tree s1) (fst e) = None"
        by simp
    qed
    moreover have "distinct (map fst rest)" using Cons.prems(2) by simp
    ultimately have "merge_left E src0 src1 n1 rest s1 \<noteq> Inl OutsideModel"
      using Cons.IH [of s1] Cons.prems(1) by simp
    with Inr show ?thesis by (simp add: merge_left_Cons)
  qed
qed

lemma merge_from_left_inside:
  assumes "\<And>e s0 s1 m1. e \<in> set (glob_star n0) \<Longrightarrow> \<not> os_path_islink (Some (snd e)) \<Longrightarrow>
             recursiveMergeBinaries E s0 (Some (snd e)) s1 m1 \<noteq> Inl OutsideModel"
    and "distinct (map fst (glob_star n0))"
  shows "recursiveMergeBinaries E src0 n0 src1 n1 \<noteq> Inl OutsideModel"
proof -
  have "merge_left E src0 src1 n1 (glob_star n0) \<lparr>dst_tree = [], printed = []\<rparr> \<noteq> Inl OutsideModel"
    by (rule merge_left_inside [OF assms]) simp_all
  then show ?thesis
    using merge_right_inside fix_left_inside fix_right_inside
    by (auto simp: recursiveMergeBinaries.simps split: sum.splits)
qed

lemma merge_stays_inside_model:
  "names_distinct n0 \<Longrightarrow> \<not> os_path_islink (Some n0) \<Longrightarrow>
     recursiveMergeBinaries E src0 (Some n0) src1 n1 \<noteq> Inl OutsideModel"
proof (induction n0 arbitrary: src0 src1 n1)
  case (File b t)
  show ?case
    by (rule merge_from_left_inside) (simp_all add: glob_star_def os_listdir_def)
next
  case (Dir es)
  show ?case
  proof (rule merge_from_left_inside)
    show "distinct (map fst (glob_star (Some (Dir es))))"
      using Dir.prems(1) by (simp add: distinct_glob_star)
  next
    fix e s0 s1 m1
    assume e: "e \<in> set (glob_star (Some (Dir es)))" and nl: "\<not> os_path_islink (Some (snd e))"
    from e have mem: "e \<in> set es" by (simp add: glob_star_Dir)
    then have "names_distinct (snd e)" using Dir.prems(1) by simp
    moreover have "snd e \<in> Basic_BNFs.snds e" by (cases e) simp
    ultimately show "recursiveMergeBinaries E s0 (Some (snd e)) s1 m1 \<noteq> Inl OutsideModel"
      using Dir.IH [OF mem] nl by blast
  qed
next
  case (Symlink p t)
  then show ?case by simp
qed

section \<open>Example trees\<close>

text \<open>A run in which \<^verbatim>\<open>lipo\<close> rejects every pair it is given.\<close>

definition lipo_rejects :: env where
  "lipo_rejects = \<lparr>cwd = [''build''], lipo_tool = (\<lambda>f0 f1. None)\<rparr>"

text \<open>
  Scenario A of the specification: the left tree holds \<^verbatim>\<open>lib/a.dylib\<close> (content X)
  and \<^verbatim>\<open>lib/b.txt\<close> (content Y), the right tree \<^verbatim>\<open>lib/a.dylib\<close> (content X)
  and \<^verbatim>\<open>lib/c.txt\<close> (content Z).
\<close>

definition scenario_A_left :: node where
  "scenario_A_left = Dir [(''lib'', Dir [(''a.dylib'', File ''X'' 1), (''b.txt'', File ''Y'' 1)])]"

definition scenario_A_right :: node where
  "scenario_A_right = Dir [(''lib'', Dir [(''a.dylib'', File ''X'' 2), (''c.txt'', File ''Z'' 2)])]"


section \<open>Entries that only the right tree holds\<close>

text \<open>
  C2. The claim: every entry that is not a link and exists only in the right tree is
  copied to the destination under its own name; in Scenario A the merged tree holds
  \<^verbatim>\<open>lib/c.txt\<close> with content Z. The code: the second loop takes its file name from
  \<open>newpath0\<close>, the variable of the first loop, and not from \<open>newpath1\<close>; the name it
  tests is the last entry of the left directory, which exists, so nothing is copied.
  In Scenario A the merge ends normally and the destination holds \<^verbatim>\<open>lib/a.dylib\<close> and
  \<^verbatim>\<open>lib/b.txt\<close> only.
\<close>

theorem scenario_A_right_only_file_missing:
  "recursiveMergeBinaries lipo_rejects (Rel [''x86_64'']) (Some scenario_A_left)
       (Rel [''arm64'']) (Some scenario_A_right) =
     Inr \<lparr>dst_tree = [(''lib'', DDir [(''a.dylib'', DFile ''X''), (''b.txt'', DFile ''Y'')])],
          printed = []\<rparr>"
  by code_simp


section \<open>Files that are the same on both sides\<close>







section \<open>An empty left directory\<close>

text \<open>
  C10. The claim: with no entry in the left tree and at least one entry that is not a
  link in the right tree, the merge raises a NameError. As amended: when \<^verbatim>\<open>glob\<close>
  lists nothing in the left directory and at least one entry, link or not, in the right
  one, the second loop reads the unbound variable \<open>newpath0\<close> and the merge raises
  UnboundLocalError, a NameError. A right entry whose name begins with a dot is not listed
  and does not raise it.
\<close>

theorem merge_empty_left_raises:
  assumes "glob_star n0 = []" and "glob_star n1 \<noteq> []"
  shows "recursiveMergeBinaries E src0 n0 src1 n1 = Inl UnboundLocalError"
proof -
  from assms(2) obtain e1 rest where "glob_star n1 = e1 # rest" by (cases "glob_star n1") auto
  with assms(1) show ?thesis
    by (simp add: recursiveMergeBinaries.simps last_newpath0_def)
qed


theorem merge_empty_left_raises_witness:
  "glob_star (Some (Dir [])) = []
   \<and> glob_star (Some (Dir [(''c.txt'', File ''Z'' 2)])) \<noteq> []
   \<and> recursiveMergeBinaries lipo_rejects (Rel [''x86_64'']) (Some (Dir []))
        (Rel [''arm64'']) (Some (Dir [(''c.txt'', File ''Z'' 2)])) = Inl UnboundLocalError"
proof -
  have a: "glob_star (Some (Dir [])) = []" by code_simp
  have b: "glob_star (Some (Dir [(''c.txt'', File ''Z'' 2)])) \<noteq> []" by code_simp
  from merge_empty_left_raises [OF a b] a b show ?thesis by simp
qed


text \<open>
  Where the claim of C10 fails as stated: the left directory is empty, the right one
  holds the regular file \<^verbatim>\<open>.DS_Store\<close>, and the merge returns normally.
\<close>

theorem empty_left_hidden_right_returns:
  "os_listdir (Some (Dir [])) = []
   \<and> os_listdir (Some (Dir [(''.DS_Store'', File ''Z'' 2)])) = [(''.DS_Store'', File ''Z'' 2)]
   \<and> \<not> os_path_islink (Some (File ''Z'' 2))
   \<and> recursiveMergeBinaries lipo_rejects (Rel [''x86_64'']) (Some (Dir []))
        (Rel [''arm64'']) (Some (Dir [(''.DS_Store'', File ''Z'' 2)])) = Inr \<lparr>dst_tree = [], printed = []\<rparr>"
  by code_simp


section \<open>Going down into a directory that both trees hold\<close>



lemma foldl_join_snoc: "foldl os_path_join p (Q @ [x]) = os_path_join (foldl os_path_join p Q) x"
  by simp



section \<open>Files that differ and that lipo rejects\<close>



text \<open>
  Scenario C of the specification: both sides hold \<^verbatim>\<open>Resources/readme.txt\<close>, with
  different bytes.
\<close>

definition scenario_C_left :: node where
  "scenario_C_left = Dir [(''Resources'', Dir [(''readme.txt'', File ''left'' 1)])]"

definition scenario_C_right :: node where
  "scenario_C_right = Dir [(''Resources'', Dir [(''readme.txt'', File ''right!'' 2)])]"




section \<open>Every path once\<close>
























section \<open>Links\<close>











section \<open>A directory on one side and a file on the other\<close>











section \<open>Where the links lead\<close>

text \<open>
  Components as \<^verbatim>\<open>normpath\<close> leaves them: not empty, not \<^verbatim>\<open>.\<close>, not \<^verbatim>\<open>..\<close>.
\<close>

definition plain :: "string list \<Rightarrow> bool" where
  "plain cs = list_all (\<lambda>c. c \<noteq> [] \<and> c \<noteq> ''.'' \<and> c \<noteq> ''..'') cs"

text \<open>
  Where a link with the target \<open>t\<close>, held by the directory with the absolute path
  \<open>dir\<close>, leads: a relative target is read from \<open>dir\<close>.
\<close>

fun resolve_link :: "string list \<Rightarrow> path \<Rightarrow> string list" where
  "resolve_link dir (Rel t) = normpath [] (dir @ t)"
| "resolve_link dir (Abs t) = normpath [] t"

lemma plain_Nil [simp]: "plain []"
  by (simp add: plain_def)

lemma plain_Cons [simp]: "plain (c # cs) = (c \<noteq> [] \<and> c \<noteq> ''.'' \<and> c \<noteq> ''..'' \<and> plain cs)"
  by (simp add: plain_def)

lemma plain_append [simp]: "plain (xs @ ys) = (plain xs \<and> plain ys)"
  by (simp add: plain_def)









lemmas [simp del] = resolve_link.simps








section \<open>The build\<close>

text \<open>
  The configuration of the script: its module variables, after \<^verbatim>\<open>parse_args\<close>. The
  two dictionaries have an entry for each architecture and are kept as functions.
\<close>

record config =
  dst_app :: path
  build_target :: string
  pkg_config_path :: "string \<Rightarrow> string"
  qt5_path :: "string \<Rightarrow> string"
  codesign_identity :: string

definition architectures :: "string list" where
  "architectures = [''x86_64'', ''arm64'']"

definition mac_os_deployment_target :: "string \<Rightarrow> string" where
  "mac_os_deployment_target arch = (if arch = ''arm64'' then ''10.14.0'' else ''10.12.0'')"

text \<open>
  An external command as \<^verbatim>\<open>subprocess.check_call\<close> receives it: the arguments, the
  variables set on top of the environment of the script, and the working directory.
\<close>

record call =
  argv :: "string list"
  call_env :: "(string \<times> string) list"
  call_cwd :: "string option"

definition cmake_call :: "config \<Rightarrow> string \<Rightarrow> call" where
  "cmake_call C arch =
     \<lparr>argv = [''arch'', ''-'' @ arch, ''cmake'', ''../../'', ''-G'', ''Xcode'',
              ''-DCMAKE_OSX_DEPLOYMENT_TARGET='' @ mac_os_deployment_target arch],
      call_env = [(''PKG_CONFIG_PATH'', pkg_config_path C arch),
                  (''Qt5_DIR'', qt5_path C arch),
                  (''CMAKE_OSX_ARCHITECTURES'', arch)],
      call_cwd = Some arch\<rparr>"

definition xcodebuild_call :: "config \<Rightarrow> string \<Rightarrow> call" where
  "xcodebuild_call C arch =
     \<lparr>argv = [''xcodebuild'', ''-project'', ''dolphin-emu.xcodeproj'',
              ''-target'', build_target C, ''-configuration'', ''Release''],
      call_env = [],
      call_cwd = Some arch\<rparr>"

definition codesign_call :: "config \<Rightarrow> path \<Rightarrow> call" where
  "codesign_call C p =
     \<lparr>argv = [''codesign'', ''--deep'', ''--force'', ''-s'', codesign_identity C, path_str p],
      call_env = [],
      call_cwd = None\<rparr>"

text \<open>
  What the script does to the outside, in order: the directories it makes, the tree it
  removes, the commands it runs with \<^verbatim>\<open>check_call\<close>.
\<close>

datatype event = Mkdir path | Rmtree path | CheckCall call

text \<open>
  What the outside answers: whether a path exists when the script asks, the exit status
  of a command, the tree found at a source path when the merge starts (the builds made
  it), and the surroundings of the merge. The script asks nothing else; in particular it
  never asks whether project files exist.
\<close>

record outside =
  path_exists :: "path \<Rightarrow> bool"
  exit_status :: "call \<Rightarrow> int"
  built :: "path \<Rightarrow> node option"
  merge_env :: env

text \<open>
  \<^verbatim>\<open>subprocess.check_call\<close>: the command runs; a status other than 0 raises
  CalledProcessError. The left side of a result is the exception with the events up to it.
\<close>

definition subprocess_check_call :: "outside \<Rightarrow> call \<Rightarrow> event list \<Rightarrow> (event list \<times> error) + event list" where
  "subprocess_check_call W c tr =
     (if exit_status W c \<noteq> 0 then Inl (tr @ [CheckCall c], CalledProcessError (argv c))
      else Inr (tr @ [CheckCall c]))"

text \<open>The loop over the architectures.\<close>

fun build_archs :: "outside \<Rightarrow> config \<Rightarrow> string list \<Rightarrow> event list \<Rightarrow> (event list \<times> error) + event list" where
  "build_archs W C [] tr = Inr tr"
| "build_archs W C (arch # rest) tr =
     (let tr1 = (if \<not> path_exists W (Rel [arch]) then tr @ [Mkdir (Rel [arch])] else tr) in
      case subprocess_check_call W (cmake_call C arch) tr1 of
        Inl f \<Rightarrow> Inl f
      | Inr tr2 \<Rightarrow>
          (case subprocess_check_call W (xcodebuild_call C arch) tr2 of
             Inl f \<Rightarrow> Inl f
           | Inr tr3 \<Rightarrow> build_archs W C rest tr3))"

text \<open>The loop that signs the entries of the destination that \<^verbatim>\<open>glob\<close> lists.\<close>

fun codesign_all :: "outside \<Rightarrow> config \<Rightarrow> path list \<Rightarrow> event list \<Rightarrow> (event list \<times> error) + event list" where
  "codesign_all W C [] tr = Inr tr"
| "codesign_all W C (p # rest) tr =
     (case subprocess_check_call W (codesign_call C p) tr of
        Inl f \<Rightarrow> Inl f
      | Inr tr' \<Rightarrow> codesign_all W C rest tr')"

text \<open>
  The end of a run of \<open>build\<close>: the events, and the merged tree with the lines printed
  once the merge has ended normally.
\<close>

record build_state =
  events :: "event list"
  universal :: "merge_state option"

definition build :: "outside \<Rightarrow> config \<Rightarrow> (build_state \<times> error) + build_state" where
  "build W C =
     (case build_archs W C architectures [] of
        Inl (tr, err) \<Rightarrow> Inl (\<lparr>events = tr, universal = None\<rparr>, err)
      | Inr tr \<Rightarrow>
          (let src_app0 = Rel [architectures ! 0, ''Binaries'', ''release''];
               src_app1 = Rel [architectures ! 1, ''Binaries'', ''release''];
               tr1 = (if path_exists W (dst_app C) then tr @ [Rmtree (dst_app C)] else tr);
               tr2 = tr1 @ [Mkdir (dst_app C)]
           in case recursiveMergeBinaries (merge_env W) src_app0 (built W src_app0)
                     src_app1 (built W src_app1) of
                Inl err \<Rightarrow> Inl (\<lparr>events = tr2, universal = None\<rparr>, err)
              | Inr st \<Rightarrow>
                  (case codesign_all W C
                          (map (\<lambda>e. os_path_join (dst_app C) (fst e))
                               (filter (\<lambda>e. \<not> ishidden (fst e)) (dst_tree st))) tr2 of
                     Inl (tr3, err) \<Rightarrow> Inl (\<lparr>events = tr3, universal = Some st\<rparr>, err)
                   | Inr tr3 \<Rightarrow> Inr \<lparr>events = tr3, universal = Some st\<rparr>)))"

definition events_of :: "(build_state \<times> error) + build_state \<Rightarrow> event list" where
  "events_of r = (case r of Inl (s, err) \<Rightarrow> events s | Inr s \<Rightarrow> events s)"

definition default_config :: config where
  "default_config =
     \<lparr>dst_app = Rel [''universal''],
      build_target = ''ALL_BUILD'',
      pkg_config_path = (\<lambda>arch. if arch = ''arm64'' then ''/opt/homebrew/lib/pkgconfig''
                                 else ''/usr/local/lib/pkgconfig''),
      qt5_path = (\<lambda>arch. if arch = ''arm64'' then ''/opt/homebrew/opt/qt5''
                          else ''/usr/local/opt/qt5''),
      codesign_identity = ''-''\<rparr>"

text \<open>
  A run that finds both architecture directories and the destination in place, and in
  which every command succeeds.
\<close>

definition second_run :: outside where
  "second_run =
     \<lparr>path_exists = (\<lambda>p. True),
      exit_status = (\<lambda>c. 0),
      built = (\<lambda>p. if p = Rel [''x86_64'', ''Binaries'', ''release''] then Some scenario_C_left
                     else if p = Rel [''arm64'', ''Binaries'', ''release''] then Some scenario_C_right
                     else None),
      merge_env = lipo_rejects\<rparr>"

text \<open>
  A run in which the two builds leave two applications and \<^verbatim>\<open>codesign\<close> fails on
  the first.
\<close>

definition two_apps :: node where
  "two_apps = Dir [(''Dolphin.app'', Dir []), (''Updater.app'', Dir [])]"

definition codesign_fails :: outside where
  "codesign_fails =
     \<lparr>path_exists = (\<lambda>p. False),
      exit_status = (\<lambda>c. if argv c = [''codesign'', ''--deep'', ''--force'', ''-s'', ''-'',
                                        ''universal/Dolphin.app''] then 1 else 0),
      built = (\<lambda>p. Some two_apps),
      merge_env = lipo_rejects\<rparr>"

definition all_passed :: "outside \<Rightarrow> event list \<Rightarrow> bool" where
  "all_passed W tr = (\<forall>c. CheckCall c \<in> set tr \<longrightarrow> exit_status W c = 0)"

definition stopped_at :: "outside \<Rightarrow> event list \<Rightarrow> error \<Rightarrow> bool" where
  "stopped_at W tr err =
     (\<exists>pre c. tr = pre @ [CheckCall c] \<and> all_passed W pre \<and> exit_status W c \<noteq> 0
              \<and> err = CalledProcessError (argv c))"

lemma all_passed_Nil [simp]: "all_passed W []"
  by (simp add: all_passed_def)

lemma all_passed_append [simp]: "all_passed W (a @ b) = (all_passed W a \<and> all_passed W b)"
  by (auto simp: all_passed_def)

lemma all_passed_Cons_other [simp]:
  "all_passed W (Mkdir p # tr) = all_passed W tr"
  "all_passed W (Rmtree p # tr) = all_passed W tr"
  by (auto simp: all_passed_def)

lemma check_call_Inr:
  "subprocess_check_call W c tr = Inr tr' \<Longrightarrow> all_passed W tr \<Longrightarrow> all_passed W tr'"
  by (auto simp: subprocess_check_call_def all_passed_def split: if_splits)

lemma check_call_Inl:
  "subprocess_check_call W c tr = Inl (tr', err) \<Longrightarrow> all_passed W tr \<Longrightarrow> stopped_at W tr' err"
  by (auto simp: subprocess_check_call_def stopped_at_def split: if_splits)

lemma build_archs_Inr:
  "build_archs W C archs tr = Inr tr' \<Longrightarrow> all_passed W tr \<Longrightarrow> all_passed W tr'"
proof (induction archs arbitrary: tr)
  case Nil
  then show ?case by simp
next
  case (Cons arch rest)
  let ?tr1 = "if \<not> path_exists W (Rel [arch]) then tr @ [Mkdir (Rel [arch])] else tr"
  from Cons.prems(1) obtain tr2 tr3 where
    a: "subprocess_check_call W (cmake_call C arch) ?tr1 = Inr tr2"
    and b: "subprocess_check_call W (xcodebuild_call C arch) tr2 = Inr tr3"
    and c: "build_archs W C rest tr3 = Inr tr'"
    by (auto simp: Let_def split: sum.splits)
  have "all_passed W ?tr1" using Cons.prems(2) by simp
  from check_call_Inr [OF b check_call_Inr [OF a this]] Cons.IH [OF c] show ?case by blast
qed

lemma build_archs_Inl:
  "build_archs W C archs tr = Inl (tr', err) \<Longrightarrow> all_passed W tr \<Longrightarrow> stopped_at W tr' err"
proof (induction archs arbitrary: tr)
  case Nil
  then show ?case by simp
next
  case (Cons arch rest)
  let ?tr1 = "if \<not> path_exists W (Rel [arch]) then tr @ [Mkdir (Rel [arch])] else tr"
  have p1: "all_passed W ?tr1" using Cons.prems(2) by simp
  show ?case
  proof (cases "subprocess_check_call W (cmake_call C arch) ?tr1")
    case (Inl f)
    with Cons.prems(1) have "subprocess_check_call W (cmake_call C arch) ?tr1 = Inl (tr', err)"
      by (simp add: Let_def)
    from check_call_Inl [OF this p1] show ?thesis .
  next
    case (Inr tr2)
    note a = this
    have p2: "all_passed W tr2" using check_call_Inr [OF a p1] .
    show ?thesis
    proof (cases "subprocess_check_call W (xcodebuild_call C arch) tr2")
      case (Inl f)
      with a Cons.prems(1) have "subprocess_check_call W (xcodebuild_call C arch) tr2 = Inl (tr', err)"
        by (simp add: Let_def)
      from check_call_Inl [OF this p2] show ?thesis .
    next
      case (Inr tr3)
      with a Cons.prems(1) have c: "build_archs W C rest tr3 = Inl (tr', err)"
        by (simp add: Let_def)
      from Cons.IH [OF c check_call_Inr [OF Inr p2]] show ?thesis .
    qed
  qed
qed

lemma codesign_all_Inr:
  "codesign_all W C ps tr = Inr tr' \<Longrightarrow> all_passed W tr \<Longrightarrow> all_passed W tr'"
proof (induction ps arbitrary: tr)
  case Nil
  then show ?case by simp
next
  case (Cons p rest)
  from Cons.prems(1) obtain tr1 where
    a: "subprocess_check_call W (codesign_call C p) tr = Inr tr1"
    and b: "codesign_all W C rest tr1 = Inr tr'"
    by (auto split: sum.splits)
  from Cons.IH [OF b check_call_Inr [OF a Cons.prems(2)]] show ?case .
qed

lemma codesign_all_Inl:
  "codesign_all W C ps tr = Inl (tr', err) \<Longrightarrow> all_passed W tr \<Longrightarrow> stopped_at W tr' err"
proof (induction ps arbitrary: tr)
  case Nil
  then show ?case by simp
next
  case (Cons p rest)
  show ?case
  proof (cases "subprocess_check_call W (codesign_call C p) tr")
    case (Inl f)
    with Cons.prems(1) have "subprocess_check_call W (codesign_call C p) tr = Inl (tr', err)"
      by simp
    from check_call_Inl [OF this Cons.prems(2)] show ?thesis .
  next
    case (Inr tr1)
    with Cons.prems(1) have b: "codesign_all W C rest tr1 = Inl (tr', err)" by simp
    from Cons.IH [OF b check_call_Inr [OF Inr Cons.prems(2)]] show ?thesis .
  qed
qed

lemma before_merge_passed:
  "all_passed W tr \<Longrightarrow>
     all_passed W ((if path_exists W (dst_app C) then tr @ [Rmtree (dst_app C)] else tr) @ [Mkdir (dst_app C)])"
  by simp

lemma build_Inr: "build W C = Inr s \<Longrightarrow> all_passed W (events s)"
proof -
  assume b: "build W C = Inr s"
  then obtain tr where a: "build_archs W C architectures [] = Inr tr"
    by (auto simp: build_def split: sum.splits prod.splits)
  let ?tr2 = "(if path_exists W (dst_app C) then tr @ [Rmtree (dst_app C)] else tr) @ [Mkdir (dst_app C)]"
  have p: "all_passed W ?tr2"
    using build_archs_Inr [OF a] by (intro before_merge_passed) simp
  from b a obtain ps where "codesign_all W C ps ?tr2 = Inr (events s)"
    by (auto simp: build_def Let_def split: sum.splits prod.splits)
  from codesign_all_Inr [OF this p] show ?thesis .
qed

lemma build_Inl:
  "build W C = Inl (s, err) \<Longrightarrow> stopped_at W (events s) err \<or> all_passed W (events s)"
proof -
  assume b: "build W C = Inl (s, err)"
  show ?thesis
  proof (cases "build_archs W C architectures []")
    case (Inl f)
    obtain tr e where f: "f = (tr, e)" by (cases f)
    with Inl b have "events s = tr" "err = e" by (auto simp: build_def)
    with build_archs_Inl [OF Inl [unfolded f]] show ?thesis by simp
  next
    case (Inr tr)
    let ?tr2 = "(if path_exists W (dst_app C) then tr @ [Rmtree (dst_app C)] else tr) @ [Mkdir (dst_app C)]"
    have p: "all_passed W ?tr2"
      using build_archs_Inr [OF Inr] by (intro before_merge_passed) simp
    from b Inr have "events s = ?tr2 \<or> (\<exists>ps. codesign_all W C ps ?tr2 = Inl (events s, err))"
      by (auto simp: build_def Let_def split: sum.splits prod.splits)
    then show ?thesis
    proof
      assume "events s = ?tr2"
      with p show ?thesis by simp
    next
      assume "\<exists>ps. codesign_all W C ps ?tr2 = Inl (events s, err)"
      then obtain ps where "codesign_all W C ps ?tr2 = Inl (events s, err)" ..
      from codesign_all_Inl [OF this p] show ?thesis ..
    qed
  qed
qed

text \<open>
  C9. Whenever a command that \<open>build\<close> runs with \<^verbatim>\<open>check_call\<close> (the project
  generation, the build, the signing of one artifact) exits with a status other than 0,
  \<open>build\<close> ends with CalledProcessError for that command; the command is the last
  event of the run, so nothing is retried, nothing is removed and no later artifact is
  signed, and every command before it had exited with status 0.
\<close>

theorem failing_command_ends_build:
  assumes "CheckCall c \<in> set (events_of (build W C))" and "exit_status W c \<noteq> 0"
  shows "\<exists>pre u. build W C =
             Inl (\<lparr>events = pre @ [CheckCall c], universal = u\<rparr>, CalledProcessError (argv c))
           \<and> (\<forall>c'. CheckCall c' \<in> set pre \<longrightarrow> exit_status W c' = 0)"
proof (cases "build W C")
  case (Inr s)
  from build_Inr [OF Inr] assms Inr show ?thesis
    by (auto simp: events_of_def all_passed_def)
next
  case (Inl f)
  obtain s err where f: "f = (s, err)" by (cases f)
  from build_Inl [OF Inl [unfolded f]] show ?thesis
  proof
    assume "all_passed W (events s)"
    with assms Inl f show ?thesis by (auto simp: events_of_def all_passed_def)
  next
    assume "stopped_at W (events s) err"
    then obtain pre c' where ev: "events s = pre @ [CheckCall c']" and ok: "all_passed W pre"
      and bad: "exit_status W c' \<noteq> 0" and err: "err = CalledProcessError (argv c')"
      by (auto simp: stopped_at_def)
    from assms Inl f ev ok have "c = c'" by (auto simp: events_of_def all_passed_def)
    have "s = \<lparr>events = pre @ [CheckCall c], universal = universal s\<rparr>"
      using ev \<open>c = c'\<close> by simp
    with Inl f err \<open>c = c'\<close> ok show ?thesis
      by (metis all_passed_def)
  qed
qed

theorem failing_command_ends_build_witness:
  "CheckCall (codesign_call default_config (Rel [''universal'', ''Dolphin.app'']))
     \<in> set (events_of (build codesign_fails default_config))
   \<and> exit_status codesign_fails (codesign_call default_config (Rel [''universal'', ''Dolphin.app''])) \<noteq> 0
   \<and> build codesign_fails default_config =
       Inl (\<lparr>events =
               [Mkdir (Rel [''x86_64'']),
                CheckCall (cmake_call default_config ''x86_64''),
                CheckCall (xcodebuild_call default_config ''x86_64''),
                Mkdir (Rel [''arm64'']),
                CheckCall (cmake_call default_config ''arm64''),
                CheckCall (xcodebuild_call default_config ''arm64''),
                Mkdir (Rel [''universal''])]
               @ [CheckCall (codesign_call default_config (Rel [''universal'', ''Dolphin.app'']))],
              universal = Some \<lparr>dst_tree = [(''Dolphin.app'', DDir []), (''Updater.app'', DDir [])],
                                printed = []\<rparr>\<rparr>,
            CalledProcessError (argv (codesign_call default_config (Rel [''universal'', ''Dolphin.app'']))))
   \<and> argv (codesign_call default_config (Rel [''universal'', ''Dolphin.app'']))
       = [''codesign'', ''--deep'', ''--force'', ''-s'', ''-'', ''universal/Dolphin.app'']"
proof -
  have run: "build codesign_fails default_config =
       Inl (\<lparr>events =
               [Mkdir (Rel [''x86_64'']),
                CheckCall (cmake_call default_config ''x86_64''),
                CheckCall (xcodebuild_call default_config ''x86_64''),
                Mkdir (Rel [''arm64'']),
                CheckCall (cmake_call default_config ''arm64''),
                CheckCall (xcodebuild_call default_config ''arm64''),
                Mkdir (Rel [''universal''])]
               @ [CheckCall (codesign_call default_config (Rel [''universal'', ''Dolphin.app'']))],
              universal = Some \<lparr>dst_tree = [(''Dolphin.app'', DDir []), (''Updater.app'', DDir [])],
                                printed = []\<rparr>\<rparr>,
            CalledProcessError (argv (codesign_call default_config (Rel [''universal'', ''Dolphin.app'']))))"
    by code_simp
  have m: "CheckCall (codesign_call default_config (Rel [''universal'', ''Dolphin.app'']))
     \<in> set (events_of (build codesign_fails default_config))"
    unfolding run by (simp add: events_of_def)
  have bad: "exit_status codesign_fails (codesign_call default_config (Rel [''universal'', ''Dolphin.app''])) \<noteq> 0"
    by (simp add: codesign_fails_def codesign_call_def default_config_def)
  have a: "argv (codesign_call default_config (Rel [''universal'', ''Dolphin.app'']))
       = [''codesign'', ''--deep'', ''--force'', ''-s'', ''-'', ''universal/Dolphin.app'']"
    by (simp add: codesign_call_def default_config_def)
  from failing_command_ends_build [OF m bad] obtain pre u where
    "build codesign_fails default_config =
       Inl (\<lparr>events = pre @ [CheckCall (codesign_call default_config (Rel [''universal'', ''Dolphin.app'']))],
              universal = u\<rparr>,
            CalledProcessError (argv (codesign_call default_config (Rel [''universal'', ''Dolphin.app'']))))"
    by blast
  with run m bad a show ?thesis by simp
qed

text \<open>
  C8. The claim: for each architecture the project generation is skipped when the
  project files exist already, and the build always runs. The code: \<open>build\<close> only tests
  whether the directory of the architecture exists, to create it, and runs
  \<^verbatim>\<open>cmake\<close> in every case. In a run where both directories exist, as an earlier
  run leaves them, \<^verbatim>\<open>cmake\<close> is the first command for each architecture.
\<close>

theorem cmake_runs_when_projects_exist:
  "path_exists second_run (Rel [''x86_64'']) \<and> path_exists second_run (Rel [''arm64''])
   \<and> events_of (build second_run default_config) =
       [CheckCall (cmake_call default_config ''x86_64''),
        CheckCall (xcodebuild_call default_config ''x86_64''),
        CheckCall (cmake_call default_config ''arm64''),
        CheckCall (xcodebuild_call default_config ''arm64''),
        Rmtree (Rel [''universal'']),
        Mkdir (Rel [''universal'']),
        CheckCall (codesign_call default_config (Rel [''universal'', ''Resources'']))]
   \<and> argv (cmake_call default_config ''x86_64'') =
       [''arch'', ''-x86_64'', ''cmake'', ''../../'', ''-G'', ''Xcode'',
        ''-DCMAKE_OSX_DEPLOYMENT_TARGET=10.12.0'']
   \<and> argv (cmake_call default_config ''arm64'') =
       [''arch'', ''-arm64'', ''cmake'', ''../../'', ''-G'', ''Xcode'',
        ''-DCMAKE_OSX_DEPLOYMENT_TARGET=10.14.0'']"
  by code_simp


end
